theory Spec2Isabelle
  imports Main
begin

section \<open>The property envelope\<close>

text \<open>
  Modelled from the spec: the header \<^verbatim>\<open>hybris/properties/properties.h\<close> that declares
  \<^verbatim>\<open>prop_msg_t\<close> and the \<^verbatim>\<open>PROP_MSG_*\<close> tags is not among the sources. The envelope has
  a command tag (GET, SET, LIST) and two bounded, NUL-padded buffers. The buffers are
  represented by the C strings they hold (the bytes before the first NUL). A received
  envelope whose value field holds no NUL at all is not represented: the code would
  read past the field.
\<close>

datatype prop_cmd = PROP_MSG_SETPROP | PROP_MSG_GETPROP | PROP_MSG_LISTPROP

record prop_msg_t =
  msg_cmd :: prop_cmd
  msg_name :: string
  msg_value :: string

text \<open>
  The sizes the header fixes are parameters of every function that uses them:
  \<^verbatim>\<open>PROP_NAME_MAX\<close>, \<^verbatim>\<open>PROP_VALUE_MAX\<close> and \<^verbatim>\<open>sizeof(prop_msg_t)\<close>.
\<close>

record limits =
  PROP_NAME_MAX :: nat
  PROP_VALUE_MAX :: nat
  SIZEOF_PROP_MSG :: int

text \<open>\<^verbatim>\<open>memset(&msg, 0, sizeof(msg)); msg.cmd = c;\<close>\<close>

definition zero_msg :: "prop_cmd \<Rightarrow> prop_msg_t" where
  "zero_msg c = \<lparr>msg_cmd = c, msg_name = [], msg_value = []\<rparr>"

text \<open>
  \<^verbatim>\<open>strncpy(dst, src, n)\<close> on a zeroed or caller-owned buffer: the C string left in
  \<^verbatim>\<open>dst\<close> when \<^verbatim>\<open>src\<close> is shorter than \<^verbatim>\<open>n\<close> is \<^verbatim>\<open>src\<close>; at most \<^verbatim>\<open>n\<close> bytes are
  copied.
\<close>

definition strncpy :: "nat \<Rightarrow> string \<Rightarrow> string" where
  "strncpy n src = take n src"

section \<open>The environment: system calls and files\<close>

text \<open>
  What a system call returns: \<open>Ret n\<close> is the return value \<open>n\<close> with \<^verbatim>\<open>errno\<close>
  untouched, \<open>Err e\<close> is the return value \<open>-1\<close> with \<^verbatim>\<open>errno = e\<close>.
\<close>

datatype sysret = Ret int | Err int

fun retval :: "sysret \<Rightarrow> int" where
  "retval (Ret n) = n"
| "retval (Err e) = - 1"

fun errno_after :: "sysret \<Rightarrow> int \<Rightarrow> int" where
  "errno_after (Ret n) old = old"
| "errno_after (Err e) old = e"

definition EINTR :: int where
  "EINTR = 4"

text \<open>
  \<^verbatim>\<open>/proc/cmdline\<close> as \<^verbatim>\<open>open\<close> and \<^verbatim>\<open>read\<close> see it: the open fails, the read fails, or
  the read delivers bytes of the file.
\<close>

datatype cmdline_file = Open_fails | Read_fails | Read_ok string

text \<open>
  The world a call runs in. Each system call on the socket takes its result from a
  script, in order; a call whose script is used up has not returned (\<open>None\<close>). The
  files are read-only inputs: \<open>build_prop\<close> is the content of \<^verbatim>\<open>/system/build.prop\<close>
  (\<open>None\<close> when \<^verbatim>\<open>fopen\<close> fails). The logs record what the code did: every descriptor
  given to \<^verbatim>\<open>close\<close>, every invocation of the callback, every path opened.
\<close>

record world =
  errno :: int
  socket_rets :: "sysret list"
  connect_rets :: "sysret list"
  send_rets :: "sysret list"
  recv_rets :: "(sysret \<times> prop_msg_t) list"
  build_prop :: "string option"
  proc_cmdline :: cmdline_file
  closed :: "int list"
  callbacks :: "(string \<times> string) list"
  opened :: "string list"

definition c_socket :: "world \<Rightarrow> (int \<times> world) option" where
  "c_socket w =
     (case socket_rets w of
        [] \<Rightarrow> None
      | x # xs \<Rightarrow> Some (retval x, w\<lparr>errno := errno_after x (errno w), socket_rets := xs\<rparr>))"

definition c_connect :: "int \<Rightarrow> world \<Rightarrow> (int \<times> world) option" where
  "c_connect s w =
     (case connect_rets w of
        [] \<Rightarrow> None
      | x # xs \<Rightarrow> Some (retval x, w\<lparr>errno := errno_after x (errno w), connect_rets := xs\<rparr>))"

definition c_send :: "int \<Rightarrow> prop_msg_t \<Rightarrow> world \<Rightarrow> (int \<times> world) option" where
  "c_send s msg w =
     (case send_rets w of
        [] \<Rightarrow> None
      | x # xs \<Rightarrow> Some (retval x, w\<lparr>errno := errno_after x (errno w), send_rets := xs\<rparr>))"

text \<open>
  \<^verbatim>\<open>recv\<close> writes into the buffer only when it returns a positive count; the script
  gives the buffer's content after such a call.
\<close>

definition c_recv :: "int \<Rightarrow> prop_msg_t \<Rightarrow> world \<Rightarrow> ((int \<times> prop_msg_t) \<times> world) option" where
  "c_recv s msg w =
     (case recv_rets w of
        [] \<Rightarrow> None
      | (x, m) # xs \<Rightarrow>
          Some ((retval x, if 0 < retval x then m else msg),
                w\<lparr>errno := errno_after x (errno w), recv_rets := xs\<rparr>))"

definition c_close :: "int \<Rightarrow> world \<Rightarrow> world" where
  "c_close s w = w\<lparr>closed := closed w @ [s]\<rparr>"

definition call_propfn :: "prop_msg_t \<Rightarrow> world \<Rightarrow> world" where
  "call_propfn msg w = w\<lparr>callbacks := callbacks w @ [(msg_name msg, msg_value msg)]\<rparr>"

text \<open>
  glibc's macro:
  \<^verbatim>\<open>do __result = (long int) (expression); while (__result == -1L && errno == EINTR);\<close>
  The loop runs for as long as the expression keeps being interrupted.
\<close>

partial_function (option) TEMP_FAILURE_RETRY ::
  "(world \<Rightarrow> (int \<times> world) option) \<Rightarrow> world \<Rightarrow> (int \<times> world) option" where
  "TEMP_FAILURE_RETRY expression w =
     (case expression w of
        None \<Rightarrow> None
      | Some (result, w') \<Rightarrow>
          if result = - 1 \<and> errno w' = EINTR then TEMP_FAILURE_RETRY expression w'
          else Some (result, w'))"

section \<open>The transport: \<^verbatim>\<open>send_prop_msg\<close>\<close>

text \<open>
  How the receive loop is left: its condition fails with the last \<^verbatim>\<open>recv\<close> status
  \<open>r\<close> (\<open>Loop_end r msg patched_init\<close>), or the function returns from inside the loop
  (\<open>Loop_return result msg\<close>).
\<close>

datatype loop_exit = Loop_end int prop_msg_t bool | Loop_return int prop_msg_t

function recv_loop ::
  "limits \<Rightarrow> int \<Rightarrow> bool \<Rightarrow> int \<Rightarrow> prop_msg_t \<Rightarrow> bool \<Rightarrow> world \<Rightarrow> (loop_exit \<times> world) option" where
  "recv_loop L s propfn result msg patched_init w =
     (case c_recv s msg w of
        None \<Rightarrow> None
      | Some ((r, msg'), w') \<Rightarrow>
          if 0 < r then
            if r \<noteq> SIZEOF_PROP_MSG L then Some (Loop_return result msg', c_close s w')
            else recv_loop L s propfn result msg' (if \<not> patched_init then True else patched_init)
                   (if propfn then call_propfn msg' w' else w')
          else Some (Loop_end r msg' patched_init, w'))"
  by pat_completeness auto
termination
  by (relation "measure (\<lambda>(L, s, propfn, result, msg, patched_init, w). length (recv_rets w))")
     (auto simp: c_recv_def call_propfn_def split: list.splits if_splits)

declare recv_loop.simps [simp del]

text \<open>
  \<open>propfn\<close> tells whether a callback was given (a non-NULL function pointer); its
  invocations are logged. The result is the returned \<^verbatim>\<open>int\<close> with the content of
  \<^verbatim>\<open>*msg\<close> after the call. The connect line is
  \<^verbatim>\<open>if (TEMP_FAILURE_RETRY(connect(s, &addr.addr_g, alen) < 0))\<close>: the macro's
  expression is the comparison. \<^verbatim>\<open>r == sizeof(prop_msg_t)\<close> compares as
  \<^verbatim>\<open>size_t\<close>, so a negative \<open>r\<close> is never equal.
\<close>

definition send_prop_msg ::
  "limits \<Rightarrow> prop_msg_t \<Rightarrow> bool \<Rightarrow> world \<Rightarrow> ((int \<times> prop_msg_t) \<times> world) option" where
  "send_prop_msg L msg propfn w =
     (let result = - 1 in
      case c_socket w of
        None \<Rightarrow> None
      | Some (s, w1) \<Rightarrow>
          if s < 0 then Some ((result, msg), w1)
          else
            (case TEMP_FAILURE_RETRY
                    (\<lambda>v. case c_connect s v of
                            None \<Rightarrow> None
                          | Some (c, v') \<Rightarrow> Some (if c < 0 then 1 else 0, v')) w1 of
               None \<Rightarrow> None
             | Some (c, w2) \<Rightarrow>
                 if c \<noteq> 0 then Some ((result, msg), c_close s w2)
                 else
                   (case TEMP_FAILURE_RETRY (c_send s msg) w2 of
                      None \<Rightarrow> None
                    | Some (r, w3) \<Rightarrow>
                        if 0 \<le> r \<and> r = SIZEOF_PROP_MSG L then
                          (case recv_loop L s propfn result msg False w3 of
                             None \<Rightarrow> None
                           | Some (Loop_return res msg', w4) \<Rightarrow> Some ((res, msg'), w4)
                           | Some (Loop_end r' msg' patched_init, w4) \<Rightarrow>
                               Some ((if 0 \<le> r' \<and> (patched_init \<or> msg_cmd msg' = PROP_MSG_SETPROP)
                                      then 0 else result, msg'),
                                     c_close s w4))
                        else Some ((result, msg), c_close s w3))))"

text \<open>\<^verbatim>\<open>property_list\<close>: one LIST exchange; \<open>propfn\<close> as in \<open>send_prop_msg\<close>.\<close>

definition property_list :: "limits \<Rightarrow> bool \<Rightarrow> world \<Rightarrow> (int \<times> world) option" where
  "property_list L propfn w =
     (let msg = zero_msg PROP_MSG_LISTPROP in
      case send_prop_msg L msg propfn w of
        None \<Rightarrow> None
      | Some ((err, msg'), w') \<Rightarrow> if err < 0 then Some (err, w') else Some (0, w'))"

text \<open>
  \<^verbatim>\<open>property_set\<close>: a NULL pointer is \<open>None\<close>. The two \<^verbatim>\<open>strncpy\<close> calls run after the
  length checks.
\<close>

definition property_set ::
  "limits \<Rightarrow> string option \<Rightarrow> string option \<Rightarrow> world \<Rightarrow> (int \<times> world) option" where
  "property_set L key val w =
     (case key of
        None \<Rightarrow> Some (- 1, w)
      | Some k \<Rightarrow>
          let v = (case val of None \<Rightarrow> [] | Some v' \<Rightarrow> v') in
          if PROP_NAME_MAX L \<le> length k then Some (- 1, w)
          else if PROP_VALUE_MAX L \<le> length v then Some (- 1, w)
          else
            (let msg = (zero_msg PROP_MSG_SETPROP)
                         \<lparr>msg_name := strncpy (PROP_NAME_MAX L) k,
                          msg_value := strncpy (PROP_VALUE_MAX L) v\<rparr> in
             (case send_prop_msg L msg False w of
                None \<Rightarrow> None
              | Some ((err, msg'), w') \<Rightarrow> if err < 0 then Some (err, w') else Some (0, w'))))"

section \<open>The static sources\<close>

definition NUL :: char where
  "NUL = CHR 0x00"

definition LF :: char where
  "LF = CHR 0x0A"

definition CR :: char where
  "CR = CHR 0x0D"

text \<open>The C string in a buffer: the bytes before the first NUL.\<close>

definition cstr :: "string \<Rightarrow> string" where
  "cstr buf = takeWhile (\<lambda>c. c \<noteq> NUL) buf"

text \<open>\<^verbatim>\<open>if (strchr(buf, c)) *(strchr(buf, c)) = '\0';\<close>\<close>

definition cut_at :: "char \<Rightarrow> string \<Rightarrow> string" where
  "cut_at c buf = takeWhile (\<lambda>x. x \<noteq> c) buf"

text \<open>
  \<^verbatim>\<open>fgets(buf, n, f)\<close> on the unread rest of a file: \<open>None\<close> at end of file, else the
  bytes read (at most \<open>n - 1\<close>, up to and including the first newline) and the new
  rest.
\<close>

definition fgets :: "nat \<Rightarrow> string \<Rightarrow> (string \<times> string) option" where
  "fgets n f =
     (if f = [] then None
      else
        let avail = take (n - 1) f; l = takeWhile (\<lambda>c. c \<noteq> LF) avail in
        if length l < length avail then Some (l @ [LF], drop (Suc (length l)) f)
        else Some (l, drop (length l) f))"

text \<open>
  \<^verbatim>\<open>strtok(s, delim)\<close>: skips leading delimiters; \<open>None\<close> (NULL) when nothing is left,
  else the token up to the next delimiter and the position kept for the next call
  \<^verbatim>\<open>strtok(NULL, delim)\<close>.
\<close>

definition strtok :: "string \<Rightarrow> string \<Rightarrow> (string \<times> string) option" where
  "strtok s delim =
     (let start = dropWhile (\<lambda>c. c \<in> set delim) s in
      if start = [] then None
      else Some (takeWhile (\<lambda>c. c \<notin> set delim) start,
                 drop 1 (dropWhile (\<lambda>c. c \<notin> set delim) start)))"

text \<open>Undefined behaviour the code can reach: \<^verbatim>\<open>strcmp\<close> or a copy through a NULL pointer.\<close>

datatype fault = Null_dereference

lemma fgets_shorter:
  assumes "fgets n f = Some (buf, f')" and "1 < n"
  shows "length f' < length f"
proof -
  from assms(1) have ne: "f \<noteq> []"
    by (auto simp: fgets_def)
  define avail where "avail = take (n - 1) f"
  define l where "l = takeWhile (\<lambda>c. c \<noteq> LF) avail"
  have pos: "0 < length avail"
    using ne assms(2) by (cases f) (simp_all add: avail_def)
  have le: "length l \<le> length avail"
    by (simp add: l_def length_takeWhile_le)
  have "fgets n f =
          (if length l < length avail then Some (l @ [LF], drop (Suc (length l)) f)
           else Some (l, drop (length l) f))"
    unfolding fgets_def Let_def l_def avail_def using ne by (simp only: if_False)
  with assms(1) have "f' = drop (if length l < length avail then Suc (length l) else length l) f"
    by (auto split: if_splits)
  moreover have "0 < (if length l < length avail then Suc (length l) else length l)"
    using pos le by simp
  ultimately show ?thesis
    using ne by (cases f) simp_all
qed

text \<open>The \<^verbatim>\<open>while (fgets(...))\<close> loop of \<^verbatim>\<open>find_key\<close> over the unread rest \<open>f\<close> of the file.\<close>

function find_key_lines :: "string option \<Rightarrow> string \<Rightarrow> fault + string option" where
  "find_key_lines key f =
     (case fgets 1024 f of
        None \<Rightarrow> Inr None
      | Some (buf, f') \<Rightarrow>
          let line = cut_at LF (cut_at CR (cstr buf)) in
          (case strtok line ''='' of
             None \<Rightarrow> find_key_lines key f'
           | Some (mkey, saved) \<Rightarrow>
               (case strtok saved ''='' of
                  None \<Rightarrow> find_key_lines key f'
                | Some (val, saved') \<Rightarrow>
                    (case key of
                       None \<Rightarrow> Inl Null_dereference
                     | Some k \<Rightarrow>
                         if k = mkey then Inr (Some val) else find_key_lines key f'))))"
  by pat_completeness auto
termination
  by (relation "measure (\<lambda>(key, f). length f)") (auto intro: fgets_shorter)

declare find_key_lines.simps [simp del]

definition find_key :: "string option \<Rightarrow> world \<Rightarrow> fault + (string option \<times> world)" where
  "find_key key w =
     (let w' = w\<lparr>opened := opened w @ [''/system/build.prop'']\<rparr> in
      case build_prop w of
        None \<Rightarrow> Inr (None, w')
      | Some f \<Rightarrow>
          (case find_key_lines key f of
             Inl u \<Rightarrow> Inl u
           | Inr ret \<Rightarrow> Inr (ret, w')))"

text \<open>
  Lines 85 to 97 of \<^verbatim>\<open>find_key_kernel_cmdline\<close>: the C string left in \<^verbatim>\<open>cmdline\<close>.
  \<^verbatim>\<open>read\<close> delivers at most 1023 bytes.
\<close>

definition read_cmdline :: "cmdline_file \<Rightarrow> string" where
  "read_cmdline p =
     (case p of
        Open_fails \<Rightarrow> []
      | Read_fails \<Rightarrow> []
      | Read_ok bytes \<Rightarrow>
          let got = take 1023 bytes; n = length got;
              n' = (if 0 < n \<and> got ! (n - 1) = LF then n - 1 else n)
          in cstr (take n' got))"

text \<open>\<^verbatim>\<open>snprintf(prop, size, "ro.%s", s)\<close>: at most \<open>size - 1\<close> bytes are written.\<close>

definition snprintf_ro :: "nat \<Rightarrow> string \<Rightarrow> string" where
  "snprintf_ro size' s = take (size' - 1) (''ro.'' @ s)"

text \<open>
  The \<^verbatim>\<open>while (ptr && *ptr)\<close> loop; \<open>ptr = None\<close> is the NULL pointer. \<open>name_len\<close> is
  taken before the \<^verbatim>\<open>=\<close> is overwritten, so it is the length of the whole token.
\<close>

function cmdline_loop :: "limits \<Rightarrow> string option \<Rightarrow> string option \<Rightarrow> fault + string option" where
  "cmdline_loop L key ptr =
     (case ptr of
        None \<Rightarrow> Inr None
      | Some p \<Rightarrow>
          if p = [] then Inr None
          else
            let tok = takeWhile (\<lambda>c. c \<noteq> CHR '' '') p;
                ptr' = (if CHR '' '' \<in> set p
                        then Some (drop 1 (dropWhile (\<lambda>c. c \<noteq> CHR '' '') p)) else None);
                name_len = length tok
            in
              if CHR ''='' \<notin> set tok then cmdline_loop L key ptr'
              else
                let name = takeWhile (\<lambda>c. c \<noteq> CHR ''='') tok;
                    val = drop 1 (dropWhile (\<lambda>c. c \<noteq> CHR ''='') tok)
                in
                  if name_len = 0 then cmdline_loop L key ptr'
                  else if take 12 name = ''androidboot.'' \<and> 12 < name_len then
                    let boot_prop_name = drop 12 name;
                        prop = snprintf_ro (PROP_NAME_MAX L) boot_prop_name
                    in (case key of
                          None \<Rightarrow> Inl Null_dereference
                        | Some k \<Rightarrow> if prop = k then Inr (Some val) else cmdline_loop L key ptr')
                  else cmdline_loop L key ptr')"
  by pat_completeness auto
termination
  by (relation "measure (\<lambda>(L, key, ptr). case ptr of None \<Rightarrow> 0 | Some p \<Rightarrow> Suc (length p))")
     (auto simp: Let_def less_Suc_eq_le length_dropWhile_le le_diff_conv split: if_splits)

declare cmdline_loop.simps [simp del]

definition find_key_kernel_cmdline ::
  "limits \<Rightarrow> string option \<Rightarrow> world \<Rightarrow> fault + (string option \<times> world)" where
  "find_key_kernel_cmdline L key w =
     (let w' = w\<lparr>opened := opened w @ [''/proc/cmdline'']\<rparr> in
      case cmdline_loop L key (Some (read_cmdline (proc_cmdline w))) of
        Inl u \<Rightarrow> Inl u
      | Inr ret \<Rightarrow> Inr (ret, w'))"

section \<open>The client API: \<^verbatim>\<open>property_get\<close>\<close>

text \<open>
  The caller's output buffer \<^verbatim>\<open>value\<close> is \<open>None\<close> when the pointer is NULL, else the
  C string the buffer holds; its capacity is the caller's matter and is not part of
  the model. A call returns its \<^verbatim>\<open>int\<close> and the buffer as it leaves it, faults, or
  has not returned (\<open>None\<close>).
\<close>

type_synonym get_result = "(fault + (int \<times> string option \<times> world)) option"

text \<open>
  Lines 227 to 236 of \<^verbatim>\<open>property_get_socket\<close>, reached when \<^verbatim>\<open>key\<close> is NULL or the
  exchange succeeded: the default replaces an empty value, then
  \<^verbatim>\<open>strncpy(value, msg.value, sizeof(msg.value)); return 0;\<close> (\<open>strncpy_value\<close>).
\<close>

definition strncpy_value :: "limits \<Rightarrow> string option \<Rightarrow> prop_msg_t \<Rightarrow> world \<Rightarrow> get_result" where
  "strncpy_value L val msg w =
     (case val of
        None \<Rightarrow> Some (Inl Null_dereference)
      | Some old \<Rightarrow> Some (Inr (0, Some (strncpy (PROP_VALUE_MAX L) (msg_value msg)), w)))"

definition property_get_socket_copy ::
  "limits \<Rightarrow> prop_msg_t \<Rightarrow> string option \<Rightarrow> string option \<Rightarrow> world \<Rightarrow> get_result" where
  "property_get_socket_copy L msg val default_value w =
     (if length (msg_value msg) = 0 \<and> default_value \<noteq> None then
        if PROP_VALUE_MAX L \<le> length (the default_value) then Some (Inr (- 1, val, w))
        else strncpy_value L val (msg\<lparr>msg_value := the default_value\<rparr>) w
      else strncpy_value L val msg w)"

definition property_get_socket ::
  "limits \<Rightarrow> string option \<Rightarrow> string option \<Rightarrow> string option \<Rightarrow> world \<Rightarrow> get_result" where
  "property_get_socket L key val default_value w =
     (let msg = zero_msg PROP_MSG_GETPROP in
      case key of
        None \<Rightarrow> property_get_socket_copy L msg val default_value w
      | Some k \<Rightarrow>
          (case send_prop_msg L (msg\<lparr>msg_name := strncpy (PROP_NAME_MAX L) k\<rparr>) False w of
             None \<Rightarrow> None
           | Some ((err, msg'), w') \<Rightarrow>
               if err < 0 then Some (Inr (err, val, w'))
               else property_get_socket_copy L msg' val default_value w'))"

text \<open>
  \<^verbatim>\<open>strcpy(value, src)\<close> into the caller's buffer, and the rest of \<^verbatim>\<open>property_get\<close>
  after the two lookups. The last branch is the source's \<^verbatim>\<open>value = '\0';\<close>: it
  assigns the local pointer, the buffer is not written.
\<close>

definition strcpy_value :: "string option \<Rightarrow> string \<Rightarrow> world \<Rightarrow> get_result" where
  "strcpy_value val src w =
     (case val of
        None \<Rightarrow> Some (Inl Null_dereference)
      | Some old \<Rightarrow> Some (Inr (int (length src), Some src, w)))"

definition property_get ::
  "limits \<Rightarrow> string option \<Rightarrow> string option \<Rightarrow> string option \<Rightarrow> world \<Rightarrow> get_result" where
  "property_get L key val default_value w =
     (if key \<noteq> None \<and> PROP_NAME_MAX L \<le> length (the key) then Some (Inr (- 1, val, w))
      else
        (case property_get_socket L key val default_value w of
           None \<Rightarrow> None
         | Some (Inl u) \<Rightarrow> Some (Inl u)
         | Some (Inr (r, val', w1)) \<Rightarrow>
             if r = 0 then
               (case val' of
                  Some v \<Rightarrow> Some (Inr (int (length v), val', w1))
                | None \<Rightarrow> Some (Inr (0, val', w1)))
             else
               (case find_key key w1 of
                  Inl u \<Rightarrow> Some (Inl u)
                | Inr (ret, w2) \<Rightarrow>
                    (case (if ret = None then find_key_kernel_cmdline L key w2
                           else Inr (ret, w2)) of
                       Inl u \<Rightarrow> Some (Inl u)
                     | Inr (ret', w3) \<Rightarrow>
                         (case ret' of
                            Some found \<Rightarrow> strcpy_value val' found w3
                          | None \<Rightarrow>
                              (case default_value of
                                 Some d \<Rightarrow> strcpy_value val' d w3
                               | None \<Rightarrow> Some (Inr (0, val', w3))))))))"

section \<open>The static sources, stated on fields\<close>

text \<open>
  A second description of the two lookups, on the list of fields of a line instead of
  the calls of the C library. The lookups are proved equal to it below.
  \<open>split_on d s\<close> are the fields of \<open>s\<close> between the separators \<open>d\<close>, empty ones
  included; \<open>tokens d s\<close> are the non-empty fields.
\<close>

fun split_on :: "'a \<Rightarrow> 'a list \<Rightarrow> 'a list list" where
  "split_on d [] = [[]]"
| "split_on d (c # cs) =
     (if c = d then [] # split_on d cs
      else (case split_on d cs of [] \<Rightarrow> [[c]] | t # ts \<Rightarrow> (c # t) # ts))"

definition tokens :: "'a \<Rightarrow> 'a list \<Rightarrow> 'a list list" where
  "tokens d s = filter (\<lambda>t. t \<noteq> []) (split_on d s)"

text \<open>
  The entry a piece of \<^verbatim>\<open>build.prop\<close> gives: the piece is cut at its first CR and at
  its first LF; its first two non-empty fields between \<^verbatim>\<open>=\<close> signs are the key and
  the value. A piece with fewer than two such fields gives no entry.
\<close>

definition build_prop_entry :: "string \<Rightarrow> (string \<times> string) option" where
  "build_prop_entry buf =
     (case tokens (CHR ''='') (cut_at LF (cut_at CR (cstr buf))) of
        k # v # rest \<Rightarrow> Some (k, v)
      | _ \<Rightarrow> None)"

text \<open>The pieces \<^verbatim>\<open>fgets\<close> cuts a file into: its lines, a longer line in pieces of 1023 bytes.\<close>

function file_chunks :: "string \<Rightarrow> string list" where
  "file_chunks f = (case fgets 1024 f of None \<Rightarrow> [] | Some (buf, f') \<Rightarrow> buf # file_chunks f')"
  by pat_completeness auto
termination
  by (relation "measure length") (auto intro: fgets_shorter)

declare file_chunks.simps [simp del]

definition find_key_spec :: "string option \<Rightarrow> string \<Rightarrow> string option" where
  "find_key_spec file key =
     (case file of
        None \<Rightarrow> None
      | Some f \<Rightarrow>
          map_option snd
            (find (\<lambda>(k, v). k = key) (List.map_filter build_prop_entry (file_chunks f))))"

text \<open>
  The property a token of the kernel command line gives: the token is split at its
  first \<^verbatim>\<open>=\<close>; the name must begin with \<^verbatim>\<open>androidboot.\<close>; the candidate key is \<^verbatim>\<open>ro.\<close>
  followed by the rest of the name, cut to \<open>PROP_NAME_MAX - 1\<close> bytes.
\<close>

fun strip_prefix :: "'a list \<Rightarrow> 'a list \<Rightarrow> 'a list option" where
  "strip_prefix [] ys = Some ys"
| "strip_prefix (x # xs) [] = None"
| "strip_prefix (x # xs) (y # ys) = (if x = y then strip_prefix xs ys else None)"

definition split_first :: "'a \<Rightarrow> 'a list \<Rightarrow> ('a list \<times> 'a list) option" where
  "split_first d s =
     (case split_on d s of
        [] \<Rightarrow> None
      | [whole] \<Rightarrow> None
      | a # b # rest \<Rightarrow> Some (a, drop (Suc (length a)) s))"






definition boot_property :: "limits \<Rightarrow> string \<Rightarrow> (string \<times> string) option" where
  "boot_property L tok =
     (case split_first (CHR ''='') tok of
        None \<Rightarrow> None
      | Some (name, v) \<Rightarrow>
          (case strip_prefix ''androidboot.'' name of
             None \<Rightarrow> None
           | Some rest \<Rightarrow> Some (take (PROP_NAME_MAX L - 1) (''ro.'' @ rest), v)))"

definition strip_newline :: "string \<Rightarrow> string" where
  "strip_newline s = (if s \<noteq> [] \<and> last s = LF then butlast s else s)"

text \<open>The text that is tokenized: the first 1023 bytes, less one trailing newline.\<close>

definition cmdline_text_spec :: "cmdline_file \<Rightarrow> string" where
  "cmdline_text_spec p =
     (case p of Read_ok bytes \<Rightarrow> cstr (strip_newline (take 1023 bytes)) | _ \<Rightarrow> [])"

definition cmdline_spec :: "limits \<Rightarrow> cmdline_file \<Rightarrow> string \<Rightarrow> string option" where
  "cmdline_spec L p key =
     map_option snd
       (find (\<lambda>(k, v). k = key)
          (List.map_filter (boot_property L) (split_on (CHR '' '') (cmdline_text_spec p))))"

section \<open>What a call leaves untouched\<close>

text \<open>The logs and the files of two worlds agree.\<close>

definition same_logs :: "world \<Rightarrow> world \<Rightarrow> bool" where
  "same_logs v v' \<longleftrightarrow>
     closed v' = closed v \<and> callbacks v' = callbacks v \<and> opened v' = opened v \<and>
     build_prop v' = build_prop v \<and> proc_cmdline v' = proc_cmdline v"

section \<open>Concrete inputs\<close>

text \<open>Android's sizes: names of 32 bytes, values of 92, an envelope of 128.\<close>

definition L0 :: limits where
  "L0 = \<lparr>PROP_NAME_MAX = 32, PROP_VALUE_MAX = 92, SIZEOF_PROP_MSG = 128\<rparr>"

text \<open>A world with no service and no files: every script is empty.\<close>

definition world0 :: world where
  "world0 = \<lparr>errno = 0, socket_rets = [], connect_rets = [], send_rets = [], recv_rets = [],
              build_prop = None, proc_cmdline = Open_fails,
              closed = [], callbacks = [], opened = []\<rparr>"

text \<open>
  A world with a reachable service: \<^verbatim>\<open>socket\<close> gives descriptor 3, \<^verbatim>\<open>connect\<close> succeeds,
  \<^verbatim>\<open>send\<close> writes the whole envelope, and \<^verbatim>\<open>recv\<close> follows the script \<open>rs\<close>.
\<close>

definition live :: "(sysret \<times> prop_msg_t) list \<Rightarrow> world" where
  "live rs = world0\<lparr>socket_rets := [Ret 3], connect_rets := [Ret 0],
                     send_rets := [Ret 128], recv_rets := rs\<rparr>"

definition reply_a :: prop_msg_t where
  "reply_a = \<lparr>msg_cmd = PROP_MSG_LISTPROP, msg_name = ''ro.a'', msg_value = ''1''\<rparr>"

definition reply_b :: prop_msg_t where
  "reply_b = \<lparr>msg_cmd = PROP_MSG_LISTPROP, msg_name = ''ro.b'', msg_value = ''2''\<rparr>"

text \<open>The request \<open>property_get\<close> sends for \<^verbatim>\<open>ro.x\<close>, and two answers to it.\<close>

definition get_x :: prop_msg_t where
  "get_x = \<lparr>msg_cmd = PROP_MSG_GETPROP, msg_name = ''ro.x'', msg_value = []\<rparr>"

definition reply_unset :: prop_msg_t where
  "reply_unset = \<lparr>msg_cmd = PROP_MSG_GETPROP, msg_name = ''ro.x'', msg_value = []\<rparr>"

definition reply_live :: prop_msg_t where
  "reply_live = \<lparr>msg_cmd = PROP_MSG_GETPROP, msg_name = ''ro.x'', msg_value = ''live''\<rparr>"

text \<open>No service listens: \<^verbatim>\<open>connect\<close> fails with \<^verbatim>\<open>ECONNREFUSED\<close> (111). No files either.\<close>

definition no_service :: world where
  "no_service = world0\<lparr>socket_rets := [Ret 3], connect_rets := [Err 111]\<rparr>"

text \<open>
  The service is up and would answer \<^verbatim>\<open>live\<close>; a signal interrupts the first
  \<^verbatim>\<open>connect\<close>, a second attempt would succeed.
\<close>

definition interrupted_connect :: world where
  "interrupted_connect =
     world0\<lparr>socket_rets := [Ret 3], connect_rets := [Err EINTR, Ret 0],
            send_rets := [Ret 128], recv_rets := [(Ret 128, reply_live), (Ret 0, reply_live)]\<rparr>"


section \<open>The exchange, step by step\<close>

lemma retry_send:
  assumes "send_rets w = replicate k (Err EINTR) @ Ret n # rest" and "n \<noteq> - 1"
  shows "TEMP_FAILURE_RETRY (c_send s msg) w =
           Some (n, w\<lparr>errno := (if k = 0 then errno w else EINTR), send_rets := rest\<rparr>)"
  using assms
proof (induction k arbitrary: w)
  case 0
  then show ?case
    by (subst TEMP_FAILURE_RETRY.simps) (simp add: c_send_def)
next
  case (Suc k)
  let ?w' = "w\<lparr>errno := EINTR, send_rets := replicate k (Err EINTR) @ Ret n # rest\<rparr>"
  have step: "c_send s msg w = Some (- 1, ?w')"
    using Suc.prems by (simp add: c_send_def)
  have "TEMP_FAILURE_RETRY (c_send s msg) w = TEMP_FAILURE_RETRY (c_send s msg) ?w'"
    by (subst TEMP_FAILURE_RETRY.simps) (simp add: step)
  also have "\<dots> = Some (n, ?w'\<lparr>errno := (if k = 0 then errno ?w' else EINTR), send_rets := rest\<rparr>)"
    by (rule Suc.IH) (simp_all add: Suc.prems)
  finally show ?case by simp
qed

text \<open>The macro around \<^verbatim>\<open>connect(...) < 0\<close> evaluates its expression once.\<close>

lemma retry_connect:
  assumes "connect_rets w = x # rest"
  shows "TEMP_FAILURE_RETRY
           (\<lambda>v. case c_connect s v of None \<Rightarrow> None
                 | Some (c, v') \<Rightarrow> Some (if c < 0 then 1 else 0, v')) w =
         Some (if retval x < 0 then 1 else 0,
               w\<lparr>errno := errno_after x (errno w), connect_rets := rest\<rparr>)"
  using assms by (subst TEMP_FAILURE_RETRY.simps) (simp add: c_connect_def)

lemma recv_loop_replies:
  assumes "recv_rets w = map (\<lambda>m. (Ret (SIZEOF_PROP_MSG L), m)) replies @ tail"
    and "0 < SIZEOF_PROP_MSG L"
  shows "recv_loop L s propfn result msg p w =
         recv_loop L s propfn result (last (msg # replies)) (p \<or> replies \<noteq> [])
           (w\<lparr>recv_rets := tail,
              callbacks := callbacks w @
                (if propfn then map (\<lambda>m. (msg_name m, msg_value m)) replies else [])\<rparr>)"
  using assms
proof (induction replies arbitrary: msg p w)
  case Nil
  then have "tail = recv_rets w" by simp
  then show ?case by simp
next
  case (Cons m ms)
  let ?w' = "(if propfn then call_propfn m else id)
               (w\<lparr>recv_rets := map (\<lambda>m. (Ret (SIZEOF_PROP_MSG L), m)) ms @ tail\<rparr>)"
  have "recv_loop L s propfn result msg p w = recv_loop L s propfn result m True ?w'"
    using Cons.prems by (subst recv_loop.simps) (simp add: c_recv_def)
  also have "\<dots> = recv_loop L s propfn result (last (m # ms)) (True \<or> ms \<noteq> [])
           (?w'\<lparr>recv_rets := tail,
              callbacks := callbacks ?w' @
                (if propfn then map (\<lambda>m. (msg_name m, msg_value m)) ms else [])\<rparr>)"
    by (rule Cons.IH) (simp_all add: Cons.prems call_propfn_def)
  finally show ?case by (simp add: call_propfn_def)
qed

text \<open>
  One whole exchange: the socket is created, the connection is made, the envelope is
  sent in full after \<open>k\<close> interrupted attempts, \<open>replies\<close> arrive as complete envelopes,
  and the next \<^verbatim>\<open>recv\<close> returns \<open>e\<close>, which is not a complete envelope.
\<close>

lemma send_prop_msg_exchange:
  assumes sock: "socket_rets w = Ret s # sr" "0 \<le> s"
    and conn: "connect_rets w = c # cr" "0 \<le> retval c"
    and snd: "send_rets w = replicate k (Err EINTR) @ Ret (SIZEOF_PROP_MSG L) # sr'"
    and sz: "0 < SIZEOF_PROP_MSG L"
    and rcv: "recv_rets w = map (\<lambda>m. (Ret (SIZEOF_PROP_MSG L), m)) replies @ (e, m') # rr"
    and last: "retval e \<noteq> SIZEOF_PROP_MSG L"
  shows "send_prop_msg L msg propfn w =
           Some ((if retval e = 0 \<and> (replies \<noteq> [] \<or> msg_cmd msg = PROP_MSG_SETPROP)
                  then 0 else - 1,
                  if 0 < retval e then m' else last (msg # replies)),
                 w\<lparr>errno := errno_after e (if k = 0 then errno_after c (errno w) else EINTR),
                   socket_rets := sr, connect_rets := cr, send_rets := sr', recv_rets := rr,
                   closed := closed w @ [s],
                   callbacks := callbacks w @
                     (if propfn then map (\<lambda>m. (msg_name m, msg_value m)) replies else [])\<rparr>)"
proof -
  define w1 where "w1 = w\<lparr>errno := errno w, socket_rets := sr\<rparr>"
  have 1: "c_socket w = Some (s, w1)"
    using sock by (simp add: c_socket_def w1_def)
  define w2 where "w2 = w1\<lparr>errno := errno_after c (errno w1), connect_rets := cr\<rparr>"
  have "connect_rets w1 = c # cr"
    by (simp add: w1_def conn)
  from retry_connect [OF this, of s] conn(2)
  have 2: "TEMP_FAILURE_RETRY
             (\<lambda>v. case c_connect s v of None \<Rightarrow> None
                   | Some (c, v') \<Rightarrow> Some (if c < 0 then 1 else 0, v')) w1 = Some (0, w2)"
    by (simp add: w2_def)
  define w3 where "w3 = w2\<lparr>errno := (if k = 0 then errno w2 else EINTR), send_rets := sr'\<rparr>"
  have "send_rets w2 = replicate k (Err EINTR) @ Ret (SIZEOF_PROP_MSG L) # sr'"
    by (simp add: w2_def w1_def snd)
  from retry_send [OF this, of s msg] sz
  have 3: "TEMP_FAILURE_RETRY (c_send s msg) w2 = Some (SIZEOF_PROP_MSG L, w3)"
    by (simp add: w3_def)
  define w4 where "w4 = w3\<lparr>recv_rets := (e, m') # rr,
              callbacks := callbacks w3 @
                (if propfn then map (\<lambda>m. (msg_name m, msg_value m)) replies else [])\<rparr>"
  define lastm where "lastm = last (msg # replies)"
  have "recv_rets w3 = map (\<lambda>m. (Ret (SIZEOF_PROP_MSG L), m)) replies @ (e, m') # rr"
    by (simp add: w3_def w2_def w1_def rcv)
  from recv_loop_replies [OF this sz, of s propfn "- 1" msg False]
  have 4: "recv_loop L s propfn (- 1) msg False w3 =
           recv_loop L s propfn (- 1) lastm (replies \<noteq> []) w4"
    by (simp add: w4_def lastm_def)
  define w5 where "w5 = w4\<lparr>errno := errno_after e (errno w4), recv_rets := rr\<rparr>"
  have 5: "recv_loop L s propfn (- 1) lastm (replies \<noteq> []) w4 =
       (if 0 < retval e then Some (Loop_return (- 1) m', c_close s w5)
        else Some (Loop_end (retval e) lastm (replies \<noteq> []), w5))"
    using last by (subst recv_loop.simps) (simp add: c_recv_def w4_def w5_def)
  have cmd: "replies = [] \<Longrightarrow> msg_cmd lastm = msg_cmd msg"
    by (simp add: lastm_def)
  have w5: "c_close s w5 =
              w\<lparr>errno := errno_after e (if k = 0 then errno_after c (errno w) else EINTR),
                socket_rets := sr, connect_rets := cr, send_rets := sr', recv_rets := rr,
                closed := closed w @ [s],
                callbacks := callbacks w @
                  (if propfn then map (\<lambda>m. (msg_name m, msg_value m)) replies else [])\<rparr>"
    by (simp add: c_close_def w5_def w4_def w3_def w2_def w1_def)
  have "send_prop_msg L msg propfn w =
           Some ((if retval e = 0 \<and> (replies \<noteq> [] \<or> msg_cmd msg = PROP_MSG_SETPROP)
                  then 0 else - 1,
                  if 0 < retval e then m' else lastm), c_close s w5)"
    using sz sock(2) cmd by (auto simp add: send_prop_msg_def 1 2 3 4 5)
  then show ?thesis
    by (simp only: w5 lastm_def)
qed

subsection \<open>Every path closes the socket once\<close>

lemma retry_frame_aux:
  assumes "TEMP_FAILURE_RETRY e w = Some y"
  shows "(\<forall>v x v'. e v = Some (x, v') \<longrightarrow> same_logs v v') \<longrightarrow> same_logs w (snd y)"
proof (rule TEMP_FAILURE_RETRY.raw_induct
    [where P = "\<lambda>e w y. (\<forall>v x v'. e v = Some (x, v') \<longrightarrow> same_logs v v') \<longrightarrow> same_logs w (snd y)",
     OF _ assms])
  fix f :: "(world \<Rightarrow> (int \<times> world) option) \<Rightarrow> world \<Rightarrow> (int \<times> world) option"
    and e w y
  assume IH: "\<And>e w y. f e w = Some y \<Longrightarrow>
      (\<forall>v x v'. e v = Some (x, v') \<longrightarrow> same_logs v v') \<longrightarrow> same_logs w (snd y)"
    and eq: "(case e w of None \<Rightarrow> None
      | Some (result, w') \<Rightarrow>
          if result = - 1 \<and> errno w' = EINTR then f e w' else Some (result, w')) = Some y"
  show "(\<forall>v x v'. e v = Some (x, v') \<longrightarrow> same_logs v v') \<longrightarrow> same_logs w (snd y)"
  proof
    assume fr: "\<forall>v x v'. e v = Some (x, v') \<longrightarrow> same_logs v v'"
    from eq obtain r w1 where ew: "e w = Some (r, w1)"
      by (cases "e w") auto
    with fr have s1: "same_logs w w1" by blast
    show "same_logs w (snd y)"
    proof (cases "r = - 1 \<and> errno w1 = EINTR")
      case True
      with eq ew have "f e w1 = Some y" by simp
      from IH [OF this] fr have "same_logs w1 (snd y)" by blast
      with s1 show ?thesis by (simp add: same_logs_def)
    next
      case False
      with eq ew have "y = (r, w1)" by auto
      with s1 show ?thesis by simp
    qed
  qed
qed

lemma retry_frame:
  assumes "TEMP_FAILURE_RETRY e w = Some (r, w')"
    and "\<And>v x v'. e v = Some (x, v') \<Longrightarrow> same_logs v v'"
  shows "same_logs w w'"
  using retry_frame_aux [OF assms(1)] assms(2) by auto

lemma recv_loop_closed:
  assumes "recv_loop L s propfn result msg p w = Some (x, w')"
  shows "closed w' = closed w @ (case x of Loop_end r m q \<Rightarrow> [] | Loop_return r m \<Rightarrow> [s])"
  using assms
proof (induction L s propfn result msg p w rule: recv_loop.induct)
  case (1 L s propfn result msg patched_init w)
  from "1.prems" obtain r m w1 where rc: "c_recv s msg w = Some ((r, m), w1)"
    by (subst (asm) recv_loop.simps) (auto split: option.splits)
  then have cl: "closed w1 = closed w"
    by (auto simp: c_recv_def split: list.splits)
  show ?case
  proof (cases "0 < r \<and> r = SIZEOF_PROP_MSG L")
    case True
    with "1.prems" rc
    have next_call: "recv_loop L s propfn result m (if \<not> patched_init then True else patched_init)
            (if propfn then call_propfn m w1 else w1) = Some (x, w')"
      by (subst (asm) recv_loop.simps) simp
    from True rc have "closed w' = closed (if propfn then call_propfn m w1 else w1) @
        (case x of Loop_end r m q \<Rightarrow> [] | Loop_return r m \<Rightarrow> [s])"
      by (intro "1.IH" [OF rc refl refl _ _ next_call]) auto
    with cl show ?thesis by (simp add: call_propfn_def)
  next
    case False
    with "1.prems" rc cl show ?thesis
      by (subst (asm) recv_loop.simps) (auto simp: c_close_def split: if_splits)
  qed
qed

lemma send_prop_msg_closed:
  assumes "send_prop_msg L msg propfn w = Some (x, w')"
  shows "closed w' = closed w @
           (case socket_rets w of [] \<Rightarrow> [] | r # rs \<Rightarrow> if retval r < 0 then [] else [retval r])"
proof -
  from assms obtain s w1 where so: "c_socket w = Some (s, w1)"
    by (auto simp: send_prop_msg_def Let_def split: option.splits)
  then obtain r rs where sr: "socket_rets w = r # rs" "s = retval r" and c1: "closed w1 = closed w"
    by (auto simp: c_socket_def split: list.splits)
  show ?thesis
  proof (cases "s < 0")
    case True
    with assms so c1 sr show ?thesis
      by (auto simp: send_prop_msg_def Let_def)
  next
    case False
    let ?e = "\<lambda>v. case c_connect s v of None \<Rightarrow> None
                   | Some (c, v') \<Rightarrow> Some (if c < 0 then 1 else (0::int), v')"
    from assms so False obtain c w2 where co: "TEMP_FAILURE_RETRY ?e w1 = Some (c, w2)"
      by (auto simp: send_prop_msg_def Let_def split: option.splits)
    have "same_logs w1 w2"
      by (rule retry_frame [OF co])
         (auto simp: c_connect_def same_logs_def split: list.splits option.splits)
    then have c2: "closed w2 = closed w" using c1 by (simp add: same_logs_def)
    show ?thesis
    proof (cases "c \<noteq> 0")
      case True
      with assms so \<open>\<not> s < 0\<close> co c2 sr show ?thesis
        by (auto simp: send_prop_msg_def Let_def c_close_def)
    next
      case c0: False
      from assms so \<open>\<not> s < 0\<close> co c0 obtain r3 w3 where
        se: "TEMP_FAILURE_RETRY (c_send s msg) w2 = Some (r3, w3)"
        by (auto simp: send_prop_msg_def Let_def split: option.splits)
      have "same_logs w2 w3"
        by (rule retry_frame [OF se])
           (auto simp: c_send_def same_logs_def split: list.splits option.splits)
      then have c3: "closed w3 = closed w" using c2 by (simp add: same_logs_def)
      show ?thesis
      proof (cases "0 \<le> r3 \<and> r3 = SIZEOF_PROP_MSG L")
        case True
        with assms so \<open>\<not> s < 0\<close> co c0 se obtain y w4 where
          lo: "recv_loop L s propfn (- 1) msg False w3 = Some (y, w4)"
          by (auto simp: send_prop_msg_def Let_def split: option.splits)
        from recv_loop_closed [OF lo] c3
        have c4: "closed w4 = closed w @ (case y of Loop_end r m q \<Rightarrow> [] | Loop_return r m \<Rightarrow> [s])"
          by simp
        from assms so \<open>\<not> s < 0\<close> co c0 se True lo c4 sr show ?thesis
          by (cases y) (auto simp: send_prop_msg_def Let_def c_close_def)
      next
        case False
        with assms so \<open>\<not> s < 0\<close> co c0 se c3 sr show ?thesis
          by (auto simp: send_prop_msg_def Let_def c_close_def)
      qed
    qed
  qed
qed

section \<open>The lookups are the stated ones\<close>

lemma split_on_unfold:
  "split_on d s = takeWhile (\<lambda>c. c \<noteq> d) s #
     (if d \<in> set s then split_on d (drop 1 (dropWhile (\<lambda>c. c \<noteq> d) s)) else [])"
  by (induction s) auto

lemma tokens_Nil [simp]: "tokens d [] = []"
  by (simp add: tokens_def)

lemma tokens_delim [simp]: "tokens d (d # cs) = tokens d cs"
  by (simp add: tokens_def)

lemma tokens_nondelim:
  assumes "c \<noteq> d"
  shows "tokens d (c # cs) =
           takeWhile (\<lambda>x. x \<noteq> d) (c # cs) # tokens d (drop 1 (dropWhile (\<lambda>x. x \<noteq> d) (c # cs)))"
proof -
  define s where "s = c # cs"
  define tw where "tw = takeWhile (\<lambda>x. x \<noteq> d) s"
  define rest where "rest = drop 1 (dropWhile (\<lambda>x. x \<noteq> d) s)"
  have tw: "tw \<noteq> []"
    using assms by (simp add: tw_def s_def)
  have split: "split_on d s = tw # (if d \<in> set s then split_on d rest else [])"
    unfolding tw_def rest_def by (rule split_on_unfold)
  have "tokens d s = tw # tokens d rest"
  proof (cases "d \<in> set s")
    case True
    with split tw show ?thesis by (simp add: tokens_def)
  next
    case False
    then have "dropWhile (\<lambda>x. x \<noteq> d) s = []"
      by auto
    then have "rest = []"
      unfolding rest_def by (simp only: drop_Nil)
    with False split tw show ?thesis by (simp add: tokens_def)
  qed
  then show ?thesis
    by (simp only: s_def tw_def rest_def)
qed

lemma strtok_delim: "strtok (d # cs) [d] = strtok cs [d]"
  by (simp add: strtok_def)

lemma strtok_nondelim:
  "c \<noteq> d \<Longrightarrow> strtok (c # cs) [d] =
     Some (takeWhile (\<lambda>x. x \<noteq> d) (c # cs), drop 1 (dropWhile (\<lambda>x. x \<noteq> d) (c # cs)))"
  by (simp add: strtok_def)

lemma strtok_tokens:
  "strtok s [d] =
     (case tokens d s of
        [] \<Rightarrow> None
      | t # ts \<Rightarrow> Some (t, drop 1 (dropWhile (\<lambda>x. x \<noteq> d) (dropWhile (\<lambda>x. x = d) s))))"
proof (induction s)
  case Nil
  show ?case by (simp add: strtok_def)
next
  case (Cons c cs)
  show ?case
  proof (cases "c = d")
    case True
    have "dropWhile (\<lambda>x. x = d) (d # cs) = dropWhile (\<lambda>x. x = d) cs" by simp
    then show ?thesis
      unfolding True using Cons.IH by (simp only: strtok_delim tokens_delim)
  next
    case False
    then show ?thesis by (simp add: strtok_nondelim tokens_nondelim)
  qed
qed

lemma strtok_saved_tokens:
  "tokens d s \<noteq> [] \<Longrightarrow>
   tokens d (drop 1 (dropWhile (\<lambda>x. x \<noteq> d) (dropWhile (\<lambda>x. x = d) s))) = tl (tokens d s)"
proof (induction s)
  case Nil
  then show ?case by simp
next
  case (Cons c cs)
  show ?case
  proof (cases "c = d")
    case True
    from Cons.prems have ne: "tokens d cs \<noteq> []"
      unfolding True by simp
    show ?thesis
      unfolding True using Cons.IH [OF ne] by simp
  next
    case False
    then show ?thesis by (simp add: tokens_nondelim)
  qed
qed

lemma strtok_twice:
  "(case strtok line [d] of
      None \<Rightarrow> None
    | Some (mkey, saved) \<Rightarrow>
        (case strtok saved [d] of None \<Rightarrow> None | Some (val, saved') \<Rightarrow> Some (mkey, val))) =
   (case tokens d line of k # v # rest \<Rightarrow> Some (k, v) | _ \<Rightarrow> None)"
proof (cases "tokens d line")
  case Nil
  then show ?thesis by (simp add: strtok_tokens)
next
  case (Cons t ts)
  then have "tokens d (drop 1 (dropWhile (\<lambda>x. x \<noteq> d) (dropWhile (\<lambda>x. x = d) line))) = ts"
    using strtok_saved_tokens [of d line] by simp
  with Cons show ?thesis
    by (cases ts) (simp_all add: strtok_tokens)
qed

lemma find_key_lines_spec:
  "find_key_lines (Some k) f =
     Inr (map_option snd
            (find (\<lambda>(k', v). k' = k) (List.map_filter build_prop_entry (file_chunks f))))"
proof (induction "length f" arbitrary: f rule: less_induct)
  case less
  show ?case
  proof (cases "fgets 1024 f")
    case None
    then show ?thesis
      by (subst find_key_lines.simps, subst file_chunks.simps) (simp add: map_filter_simps)
  next
    case (Some a)
    obtain buf f' where a: "a = (buf, f')" by (cases a)
    from Some a have "length f' < length f"
      by (auto intro: fgets_shorter)
    note rec = less [OF this]
    define line where "line = cut_at LF (cut_at CR (cstr buf))"
    define entry where "entry =
        (case strtok line ''='' of
           None \<Rightarrow> None
         | Some (mkey, saved) \<Rightarrow>
            (case strtok saved ''='' of None \<Rightarrow> None | Some (val, saved') \<Rightarrow> Some (mkey, val)))"
    have entry: "build_prop_entry buf = entry"
      by (simp add: build_prop_entry_def line_def entry_def strtok_twice)
    have chunks: "file_chunks f = buf # file_chunks f'"
      using Some a by (subst file_chunks.simps) simp
    have loop: "find_key_lines (Some k) f =
        (case entry of
           None \<Rightarrow> find_key_lines (Some k) f'
         | Some (mkey, val) \<Rightarrow> if k = mkey then Inr (Some val) else find_key_lines (Some k) f')"
      using Some a
      by (subst find_key_lines.simps)
         (simp add: Let_def entry_def line_def split: option.splits)
    show ?thesis
      unfolding loop chunks rec
      by (cases entry) (auto simp: map_filter_simps entry)
  qed
qed

lemma strip_prefix_take:
  "strip_prefix p s = (if take (length p) s = p then Some (drop (length p) s) else None)"
  by (induction p s rule: strip_prefix.induct) auto

lemma split_first_eq:
  "split_first d s =
     (if d \<in> set s then Some (takeWhile (\<lambda>c. c \<noteq> d) s, drop 1 (dropWhile (\<lambda>c. c \<noteq> d) s))
      else None)"
proof -
  have "split_on d (drop 1 (dropWhile (\<lambda>c. c \<noteq> d) s)) \<noteq> []"
    by (subst split_on_unfold) simp
  then obtain b rest where "split_on d (drop 1 (dropWhile (\<lambda>c. c \<noteq> d) s)) = b # rest"
    by (cases "split_on d (drop 1 (dropWhile (\<lambda>c. c \<noteq> d) s))") auto
  moreover have "drop (Suc (length (takeWhile (\<lambda>c. c \<noteq> d) s))) s = drop 1 (dropWhile (\<lambda>c. c \<noteq> d) s)"
    by (simp add: dropWhile_eq_drop drop_Suc drop_tl)
  ultimately show ?thesis
    by (subst split_first_def, subst split_on_unfold) simp
qed

lemma read_cmdline_spec: "read_cmdline p = cmdline_text_spec p"
proof (cases p)
  case (Read_ok bytes)
  define got where "got = take 1023 bytes"
  have "take (if 0 < length got \<and> got ! (length got - 1) = LF then length got - 1 else length got) got
        = strip_newline got"
    by (cases got rule: rev_cases) (simp_all add: strip_newline_def nth_append)
  moreover have "read_cmdline p =
     cstr (take (if 0 < length got \<and> got ! (length got - 1) = LF then length got - 1 else length got) got)"
    unfolding Read_ok got_def by (simp only: read_cmdline_def Let_def cmdline_file.case)
  moreover have "cmdline_text_spec p = cstr (strip_newline got)"
    unfolding Read_ok got_def by (simp only: cmdline_text_spec_def cmdline_file.case)
  ultimately show ?thesis by simp
qed (simp_all add: read_cmdline_def cmdline_text_spec_def)

lemma takeWhile_shorter: "d \<in> set s \<Longrightarrow> length (takeWhile (\<lambda>c. c \<noteq> d) s) < length s"
  by (induction s) auto

lemma cmdline_loop_NULL: "cmdline_loop L key None = Inr None"
  by (subst cmdline_loop.simps) simp

lemma cmdline_loop_tokens:
  "cmdline_loop L (Some k) (Some p) =
     Inr (map_option snd
            (find (\<lambda>(k', v). k' = k)
               (List.map_filter (boot_property L) (split_on (CHR '' '') p))))"
proof (induction "length p" arbitrary: p rule: less_induct)
  case less
  show ?case
  proof (cases "p = []")
    case True
    then show ?thesis
      by (subst cmdline_loop.simps)
         (simp add: map_filter_simps boot_property_def split_first_eq)
  next
    case False
    define tok where "tok = takeWhile (\<lambda>c. c \<noteq> CHR '' '') p"
    define ptr' where "ptr' = (if CHR '' '' \<in> set p
                      then Some (drop 1 (dropWhile (\<lambda>c. c \<noteq> CHR '' '') p)) else None)"
    have split: "split_on (CHR '' '') p =
        tok # (case ptr' of None \<Rightarrow> [] | Some q \<Rightarrow> split_on (CHR '' '') q)"
      by (subst split_on_unfold) (simp add: tok_def ptr'_def)
    define rest_result where "rest_result =
       (case ptr' of None \<Rightarrow> None
        | Some q \<Rightarrow> map_option snd
              (find (\<lambda>(k', v). k' = k)
                 (List.map_filter (boot_property L) (split_on (CHR '' '') q))))"
    have rec: "cmdline_loop L (Some k) ptr' = Inr rest_result"
    proof (cases ptr')
      case None
      then show ?thesis by (simp add: cmdline_loop_NULL rest_result_def)
    next
      case (Some q)
      then have "q = drop 1 (dropWhile (\<lambda>c. c \<noteq> CHR '' '') p)"
        by (simp add: ptr'_def split: if_splits)
      then have "length q < length p"
        using False length_dropWhile_le [of "\<lambda>c. c \<noteq> CHR '' ''" p] by (cases p) auto
      from less [OF this] Some show ?thesis
        by (simp add: rest_result_def)
    qed
    have spec: "map_option snd
              (find (\<lambda>(k', v). k' = k)
                 (List.map_filter (boot_property L) (split_on (CHR '' '') p))) =
          (case boot_property L tok of
             None \<Rightarrow> rest_result
           | Some (k', v) \<Rightarrow> if k' = k then Some v else rest_result)"
      by (cases ptr') (auto simp: split map_filter_simps rest_result_def split: option.splits)
    define has_eq where "has_eq \<longleftrightarrow> CHR ''='' \<in> set tok"
    define nm where "nm = takeWhile (\<lambda>c. c \<noteq> CHR ''='') tok"
    define is_boot where "is_boot \<longleftrightarrow> take 12 nm = ''androidboot.''"
    define cand where "cand = snprintf_ro (PROP_NAME_MAX L) (drop 12 nm)"
    define tv where "tv = drop 1 (dropWhile (\<lambda>c. c \<noteq> CHR ''='') tok)"
    have l12: "length ''androidboot.'' = 12" by simp
    have sf: "split_first (CHR ''='') tok = (if has_eq then Some (nm, tv) else None)"
      by (simp only: split_first_eq has_eq_def nm_def tv_def)
    have sp: "strip_prefix ''androidboot.'' nm = (if is_boot then Some (drop 12 nm) else None)"
      by (simp only: strip_prefix_take l12 is_boot_def)
    have bp: "boot_property L tok = (if has_eq \<and> is_boot then Some (cand, tv) else None)"
      unfolding boot_property_def sf cand_def snprintf_ro_def by (simp add: sp)
    have len: "12 < length tok" if a: "is_boot" and b: "has_eq"
    proof -
      from a have "length (take 12 nm) = 12"
        unfolding is_boot_def by simp
      then have "12 \<le> length nm" by simp
      moreover from b have "length nm < length tok"
        unfolding has_eq_def nm_def by (rule takeWhile_shorter)
      ultimately show ?thesis by simp
    qed
    have loop: "cmdline_loop L (Some k) (Some p) =
       (if \<not> has_eq then cmdline_loop L (Some k) ptr'
        else if length tok = 0 then cmdline_loop L (Some k) ptr'
        else if is_boot \<and> 12 < length tok
          then if cand = k then Inr (Some tv) else cmdline_loop L (Some k) ptr'
        else cmdline_loop L (Some k) ptr')"
      using False unfolding has_eq_def is_boot_def nm_def cand_def tv_def
      by (subst cmdline_loop.simps) (simp add: Let_def tok_def ptr'_def)
    show ?thesis
      unfolding loop rec spec bp using len by auto
  qed
qed

lemma find_key_eq:
  "find_key (Some key) w =
     Inr (find_key_spec (build_prop w) key, w\<lparr>opened := opened w @ [''/system/build.prop'']\<rparr>)"
  by (simp add: find_key_def find_key_spec_def find_key_lines_spec Let_def split: option.splits)





lemma find_key_kernel_cmdline_eq:
  "find_key_kernel_cmdline L (Some key) w =
     Inr (cmdline_spec L (proc_cmdline w) key, w\<lparr>opened := opened w @ [''/proc/cmdline'']\<rparr>)"
  by (simp add: find_key_kernel_cmdline_def cmdline_spec_def cmdline_loop_tokens
      read_cmdline_spec Let_def)

subsection \<open>The fallback of \<^verbatim>\<open>property_get\<close>\<close>

text \<open>
  When the exchange fails, \<open>property_get\<close> asks \<^verbatim>\<open>build.prop\<close>, and the kernel command
  line only if \<^verbatim>\<open>build.prop\<close> has no entry; the first value found is copied out. With no
  value found the default is copied out; with no default either, 0 is returned and the
  buffer keeps what it held.
\<close>

lemma property_get_static_fallback:
  assumes "length k < PROP_NAME_MAX L"
    and "send_prop_msg L ((zero_msg PROP_MSG_GETPROP)\<lparr>msg_name := strncpy (PROP_NAME_MAX L) k\<rparr>) False w
           = Some ((err, m), w1)"
    and "err < 0"
  shows "property_get L (Some k) (Some old) d w =
     Some (Inr
       (case find_key_spec (build_prop w1) k of
          Some v \<Rightarrow>
            (int (length v), Some v, w1\<lparr>opened := opened w1 @ [''/system/build.prop'']\<rparr>)
        | None \<Rightarrow>
            (case cmdline_spec L (proc_cmdline w1) k of
               Some v \<Rightarrow>
                 (int (length v), Some v,
                  w1\<lparr>opened := opened w1 @ [''/system/build.prop'', ''/proc/cmdline'']\<rparr>)
             | None \<Rightarrow>
                 (case d of
                    Some dv \<Rightarrow>
                      (int (length dv), Some dv,
                       w1\<lparr>opened := opened w1 @ [''/system/build.prop'', ''/proc/cmdline'']\<rparr>)
                  | None \<Rightarrow>
                      (0, Some old,
                       w1\<lparr>opened := opened w1 @ [''/system/build.prop'', ''/proc/cmdline'']\<rparr>)))))"
  using assms
  by (simp add: property_get_def property_get_socket_def find_key_eq find_key_kernel_cmdline_eq
      strcpy_value_def split: option.splits)

section \<open>Claims\<close>

text \<open>
  C1. In every exchange of \<open>send_prop_msg\<close> in which the whole request envelope was
  sent, the call reports success (returns 0) exactly when the receive loop ends with a
  non-negative status (the connection closed cleanly) and either at least one complete
  reply envelope was received or the command of the request is SET; otherwise it
  returns \<open>-1\<close>. Here \<open>replies\<close> are the complete envelopes received and \<open>e\<close> is the
  result of the first \<^verbatim>\<open>recv\<close> that does not deliver a complete envelope: the loop ends
  on it when \<open>retval e \<le> 0\<close>.
\<close>

theorem send_prop_msg_success_iff:
  assumes "socket_rets w = Ret s # sr" and "0 \<le> s"
    and "connect_rets w = c # cr" and "0 \<le> retval c"
    and "send_rets w = replicate k (Err EINTR) @ Ret (SIZEOF_PROP_MSG L) # sr'"
    and "0 < SIZEOF_PROP_MSG L"
    and "recv_rets w = map (\<lambda>m. (Ret (SIZEOF_PROP_MSG L), m)) replies @ (e, m') # rr"
    and "retval e \<noteq> SIZEOF_PROP_MSG L"
  shows "\<exists>res. map_option (fst \<circ> fst) (send_prop_msg L msg propfn w) = Some res \<and>
           (res = 0 \<or> res = - 1) \<and>
           (res = 0) =
             ((retval e \<le> 0 \<and> 0 \<le> retval e) \<and>
              (replies \<noteq> [] \<or> msg_cmd msg = PROP_MSG_SETPROP))"
  using send_prop_msg_exchange [OF assms, of msg propfn] by auto

text \<open>
  A GET and a SET, each answered by a clean close with no reply: the GET fails, the
  SET succeeds.
\<close>

theorem send_prop_msg_success_iff_witness:
  "map_option (fst \<circ> fst)
     (send_prop_msg L0 (zero_msg PROP_MSG_GETPROP) False (live [(Ret 0, zero_msg PROP_MSG_GETPROP)]))
     = Some (- 1) \<and>
   map_option (fst \<circ> fst)
     (send_prop_msg L0 (zero_msg PROP_MSG_SETPROP) False (live [(Ret 0, zero_msg PROP_MSG_SETPROP)]))
     = Some 0"
proof -
  have g: "\<exists>res. map_option (fst \<circ> fst) (send_prop_msg L0 m False (live [(Ret 0, m)])) = Some res \<and>
             (res = 0 \<or> res = - 1) \<and> (res = 0) = (msg_cmd m = PROP_MSG_SETPROP)" for m
  proof -
    have h: "socket_rets (live [(Ret 0, m)]) = Ret 3 # []" "(0::int) \<le> 3"
      "connect_rets (live [(Ret 0, m)]) = Ret 0 # []" "0 \<le> retval (Ret 0)"
      "send_rets (live [(Ret 0, m)]) = replicate 0 (Err EINTR) @ Ret (SIZEOF_PROP_MSG L0) # []"
      "0 < SIZEOF_PROP_MSG L0"
      "recv_rets (live [(Ret 0, m)]) = map (\<lambda>m. (Ret (SIZEOF_PROP_MSG L0), m)) [] @ (Ret 0, m) # []"
      "retval (Ret 0) \<noteq> SIZEOF_PROP_MSG L0"
      by (simp_all add: live_def world0_def L0_def)
    from send_prop_msg_success_iff [where msg = m and propfn = False, OF h]
    show ?thesis by simp
  qed
  from g [of "zero_msg PROP_MSG_GETPROP"] g [of "zero_msg PROP_MSG_SETPROP"]
  show ?thesis
    by (auto simp: zero_msg_def)
qed

text \<open>
  C2 (as the code has it). When \<open>property_list\<close> connects, sends the whole request
  envelope, and the service closes the connection without streaming any reply
  envelope, the callback is not invoked and \<open>property_list\<close> reports failure: it
  returns \<open>-1\<close>, since a LIST that saw no reply is not taken as answered.
\<close>

theorem property_list_no_entries:
  assumes "socket_rets w = Ret s # sr" and "0 \<le> s"
    and "connect_rets w = c # cr" and "0 \<le> retval c"
    and "send_rets w = replicate k (Err EINTR) @ Ret (SIZEOF_PROP_MSG L) # sr'"
    and "0 < SIZEOF_PROP_MSG L"
    and "recv_rets w = (e, m') # rr"
    and "retval e = 0"
  shows "\<exists>w'. property_list L propfn w = Some (- 1, w') \<and> callbacks w' = callbacks w"
proof -
  have rcv: "recv_rets w = map (\<lambda>m. (Ret (SIZEOF_PROP_MSG L), m)) [] @ (e, m') # rr"
    using assms(7) by simp
  have last: "retval e \<noteq> SIZEOF_PROP_MSG L"
    using assms(6,8) by simp
  show ?thesis
    using send_prop_msg_exchange [OF assms(1-6) rcv last, of "zero_msg PROP_MSG_LISTPROP" propfn]
    by (simp add: property_list_def zero_msg_def assms(8))
qed

theorem property_list_no_entries_witness:
  "\<exists>w'. property_list L0 True (live [(Ret 0, zero_msg PROP_MSG_LISTPROP)]) = Some (- 1, w') \<and>
        callbacks w' = []"
proof -
  let ?w = "live [(Ret 0, zero_msg PROP_MSG_LISTPROP)]"
  have h: "socket_rets ?w = Ret 3 # []" "(0::int) \<le> 3"
    "connect_rets ?w = Ret 0 # []" "0 \<le> retval (Ret 0)"
    "send_rets ?w = replicate 0 (Err EINTR) @ Ret (SIZEOF_PROP_MSG L0) # []"
    "0 < SIZEOF_PROP_MSG L0"
    "recv_rets ?w = (Ret 0, zero_msg PROP_MSG_LISTPROP) # []"
    "retval (Ret 0) = 0"
    by (simp_all add: live_def world0_def L0_def)
  from property_list_no_entries [where propfn = True, OF h]
  show ?thesis by (simp add: live_def world0_def)
qed

text \<open>
  The claim as written (success, return value 0) fails: against a service that
  accepts the request and closes at once, \<open>property_list\<close> returns \<open>-1\<close>.
\<close>

theorem property_list_no_entries_counterexample:
  "map_option fst (property_list L0 True (live [(Ret 0, zero_msg PROP_MSG_LISTPROP)])) = Some (- 1)"
proof -
  let ?w = "live [(Ret 0, zero_msg PROP_MSG_LISTPROP)]"
  have h: "socket_rets ?w = Ret 3 # []" "(0::int) \<le> 3"
    "connect_rets ?w = Ret 0 # []" "0 \<le> retval (Ret 0)"
    "send_rets ?w = replicate 0 (Err EINTR) @ Ret (SIZEOF_PROP_MSG L0) # []"
    "0 < SIZEOF_PROP_MSG L0"
    "recv_rets ?w = map (\<lambda>m. (Ret (SIZEOF_PROP_MSG L0), m)) [] @ (Ret 0, zero_msg PROP_MSG_LISTPROP) # []"
    "retval (Ret 0) \<noteq> SIZEOF_PROP_MSG L0"
    by (simp_all add: live_def world0_def L0_def)
  from send_prop_msg_exchange [where msg = "zero_msg PROP_MSG_LISTPROP" and propfn = True, OF h]
  show ?thesis by (simp add: property_list_def zero_msg_def)
qed

text \<open>
  C3. For a key of valid length whose exchange fails and that neither static source
  has, with no default: \<open>property_get\<close> returns 0 and leaves the output buffer as it
  was. Here no service listens, there is no \<^verbatim>\<open>build.prop\<close> and no \<^verbatim>\<open>/proc/cmdline\<close>, and
  the buffer holds \<^verbatim>\<open>garbage\<close> before the call: it still does after it, where the claim
  has the empty string. The source's last branch is \<^verbatim>\<open>value = '\0';\<close>, an assignment to
  the pointer.
\<close>

theorem property_get_total_miss_buffer:
  "property_get L0 (Some ''ro.x'') (Some ''garbage'') None no_service =
     Some (Inr (0, Some ''garbage'',
                no_service\<lparr>errno := 111, socket_rets := [], connect_rets := [], closed := [3],
                             opened := [''/system/build.prop'', ''/proc/cmdline'']\<rparr>))"
  by (simp add: property_get_def property_get_socket_def send_prop_msg_def Let_def
      no_service_def world0_def L0_def c_socket_def c_connect_def c_close_def
      TEMP_FAILURE_RETRY.simps zero_msg_def strncpy_def find_key_def
      find_key_kernel_cmdline_def read_cmdline_def cmdline_loop.simps)




text \<open>
  C5. When, in an exchange, \<^verbatim>\<open>recv\<close> returns a positive byte count other than the
  size of the envelope, \<open>send_prop_msg\<close> returns \<open>-1\<close>; no further reply is processed
  (the rest \<open>rr\<close> of the receive script is not read, and the callback has run for the
  complete replies before it only); and the socket is closed exactly once. On every
  path by which \<open>send_prop_msg\<close> returns, the descriptors it closes are exactly the
  socket it created, once: none when \<^verbatim>\<open>socket\<close> failed.
\<close>

theorem send_prop_msg_malformed_reply:
  assumes "socket_rets w = Ret s # sr" and "0 \<le> s"
    and "connect_rets w = c # cr" and "0 \<le> retval c"
    and "send_rets w = replicate k (Err EINTR) @ Ret (SIZEOF_PROP_MSG L) # sr'"
    and "0 < SIZEOF_PROP_MSG L"
    and "recv_rets w = map (\<lambda>m. (Ret (SIZEOF_PROP_MSG L), m)) replies @ (e, m') # rr"
    and "retval e \<noteq> SIZEOF_PROP_MSG L"
    and "0 < retval e"
  shows "(\<exists>m w'. send_prop_msg L msg propfn w = Some ((- 1, m), w') \<and>
            recv_rets w' = rr \<and>
            callbacks w' = callbacks w @
              (if propfn then map (\<lambda>m. (msg_name m, msg_value m)) replies else []) \<and>
            closed w' = closed w @ [s]) \<and>
         (\<forall>v x v'. send_prop_msg L msg propfn v = Some (x, v') \<longrightarrow>
            closed v' = closed v @
              (case socket_rets v of [] \<Rightarrow> [] | r # rs \<Rightarrow> if retval r < 0 then [] else [retval r]))"
proof
  show "\<exists>m w'. send_prop_msg L msg propfn w = Some ((- 1, m), w') \<and>
            recv_rets w' = rr \<and>
            callbacks w' = callbacks w @
              (if propfn then map (\<lambda>m. (msg_name m, msg_value m)) replies else []) \<and>
            closed w' = closed w @ [s]"
    using send_prop_msg_exchange [OF assms(1-8), of msg propfn] assms(9) by simp
  show "\<forall>v x v'. send_prop_msg L msg propfn v = Some (x, v') \<longrightarrow>
            closed v' = closed v @
              (case socket_rets v of [] \<Rightarrow> [] | r # rs \<Rightarrow> if retval r < 0 then [] else [retval r])"
    using send_prop_msg_closed by blast
qed

text \<open>
  A LIST whose second reply is 5 bytes long: the callback has run for the first reply
  only, the two later results of \<^verbatim>\<open>recv\<close> are never read, descriptor 3 is closed once.
\<close>

theorem send_prop_msg_malformed_reply_witness:
  "\<exists>m w'. send_prop_msg L0 (zero_msg PROP_MSG_LISTPROP) True
             (live [(Ret 128, reply_a), (Ret 5, reply_b), (Ret 128, reply_b), (Ret 0, reply_b)])
             = Some ((- 1, m), w') \<and>
          recv_rets w' = [(Ret 128, reply_b), (Ret 0, reply_b)] \<and>
          callbacks w' = [(''ro.a'', ''1'')] \<and>
          closed w' = [3]"
proof -
  let ?w = "live [(Ret 128, reply_a), (Ret 5, reply_b), (Ret 128, reply_b), (Ret 0, reply_b)]"
  have h: "socket_rets ?w = Ret 3 # []" "(0::int) \<le> 3"
    "connect_rets ?w = Ret 0 # []" "0 \<le> retval (Ret 0)"
    "send_rets ?w = replicate 0 (Err EINTR) @ Ret (SIZEOF_PROP_MSG L0) # []"
    "0 < SIZEOF_PROP_MSG L0"
    "recv_rets ?w = map (\<lambda>m. (Ret (SIZEOF_PROP_MSG L0), m)) [reply_a] @
       (Ret 5, reply_b) # [(Ret 128, reply_b), (Ret 0, reply_b)]"
    "retval (Ret 5) \<noteq> SIZEOF_PROP_MSG L0" "0 < retval (Ret 5)"
    by (simp_all add: live_def world0_def L0_def)
  from send_prop_msg_malformed_reply
         [where msg = "zero_msg PROP_MSG_LISTPROP" and propfn = True, OF h, THEN conjunct1]
  show ?thesis by (simp add: live_def world0_def reply_a_def)
qed

text \<open>
  C6. \<open>property_set\<close> returns \<open>-1\<close> with the world untouched (no socket call, no file)
  when the key has \<open>PROP_NAME_MAX\<close> bytes or more, or the value has \<open>PROP_VALUE_MAX\<close>
  bytes or more. A NULL value is the empty value: the call is the one with \<^verbatim>\<open>""\<close>, and
  with a valid key (and room for the empty value) it is the SET exchange of the
  envelope with the empty value. \<open>property_get\<close> returns \<open>-1\<close> with the world and
  the buffer untouched when the key is present and has \<open>PROP_NAME_MAX\<close> bytes or more.
\<close>

theorem property_length_checks:
  "(PROP_NAME_MAX L \<le> length k \<longrightarrow> property_set L (Some k) v w = Some (- 1, w)) \<and>
   (PROP_VALUE_MAX L \<le> length x \<longrightarrow> property_set L (Some k) (Some x) w = Some (- 1, w)) \<and>
   property_set L (Some k) None w = property_set L (Some k) (Some []) w \<and>
   (length k < PROP_NAME_MAX L \<and> 0 < PROP_VALUE_MAX L \<longrightarrow>
      property_set L (Some k) None w =
        map_option (\<lambda>((err, m), w'). (if err < 0 then err else 0, w'))
          (send_prop_msg L \<lparr>msg_cmd = PROP_MSG_SETPROP, msg_name = k, msg_value = []\<rparr> False w)) \<and>
   (PROP_NAME_MAX L \<le> length k \<longrightarrow> property_get L (Some k) val d w = Some (Inr (- 1, val, w)))"
  by (auto simp: property_set_def property_get_def Let_def zero_msg_def strncpy_def
      split: option.splits)

text \<open>
  A key of 32 bytes and a value of 92 bytes are refused with nothing done, in a world
  where any socket call would not return; a NULL value with the key \<^verbatim>\<open>k\<close> is the SET
  exchange with the empty value.
\<close>

theorem property_length_checks_witness:
  "property_set L0 (Some (replicate 32 (CHR ''k''))) (Some ''v'') world0 = Some (- 1, world0) \<and>
   property_set L0 (Some ''k'') (Some (replicate 92 (CHR ''v''))) world0 = Some (- 1, world0) \<and>
   property_get L0 (Some (replicate 32 (CHR ''k''))) (Some ''old'') None world0
     = Some (Inr (- 1, Some ''old'', world0)) \<and>
   property_set L0 (Some ''k'') None world0 =
     map_option (\<lambda>((err, m), w'). (if err < 0 then err else 0, w'))
       (send_prop_msg L0 \<lparr>msg_cmd = PROP_MSG_SETPROP, msg_name = ''k'', msg_value = []\<rparr> False world0)"
proof -
  have long_key: "PROP_NAME_MAX L0 \<le> length (replicate 32 (CHR ''k''))"
    by (simp add: L0_def)
  have long_value: "PROP_VALUE_MAX L0 \<le> length (replicate 92 (CHR ''v''))"
    by (simp add: L0_def)
  have short_key: "length ''k'' < PROP_NAME_MAX L0 \<and> 0 < PROP_VALUE_MAX L0"
    by (simp add: L0_def)
  from property_length_checks
         [where L = L0 and k = "replicate 32 (CHR ''k'')" and v = "Some ''v''" and w = world0
            and val = "Some ''old''" and d = None] long_key
  have "property_set L0 (Some (replicate 32 (CHR ''k''))) (Some ''v'') world0 = Some (- 1, world0)"
    and "property_get L0 (Some (replicate 32 (CHR ''k''))) (Some ''old'') None world0
           = Some (Inr (- 1, Some ''old'', world0))"
    by blast+
  moreover
  from property_length_checks
         [where L = L0 and k = "''k''" and x = "replicate 92 (CHR ''v'')" and w = world0]
       long_value short_key
  have "property_set L0 (Some ''k'') (Some (replicate 92 (CHR ''v''))) world0 = Some (- 1, world0)"
    and "property_set L0 (Some ''k'') None world0 =
     map_option (\<lambda>((err, m), w'). (if err < 0 then err else 0, w'))
       (send_prop_msg L0 \<lparr>msg_cmd = PROP_MSG_SETPROP, msg_name = ''k'', msg_value = []\<rparr> False world0)"
    by blast+
  ultimately show ?thesis by blast
qed

text \<open>
  C7. For a key of valid length whose GET exchange succeeds (the envelope is sent in
  full, at least one complete reply arrives, the connection then closes cleanly), when
  the value the service returned (that of the last reply) is empty and a default
  shorter than \<open>PROP_VALUE_MAX\<close> is given, \<open>property_get\<close> copies the default into the
  buffer and returns its length, and opens neither \<^verbatim>\<open>build.prop\<close> nor \<^verbatim>\<open>/proc/cmdline\<close>.
\<close>

theorem property_get_default_on_empty_reply:
  assumes "length k < PROP_NAME_MAX L"
    and "socket_rets w = Ret s # sr" and "0 \<le> s"
    and "connect_rets w = c # cr" and "0 \<le> retval c"
    and "send_rets w = replicate n (Err EINTR) @ Ret (SIZEOF_PROP_MSG L) # sr'"
    and "0 < SIZEOF_PROP_MSG L"
    and "recv_rets w = map (\<lambda>m. (Ret (SIZEOF_PROP_MSG L), m)) replies @ (e, m') # rr"
    and "retval e = 0"
    and "replies \<noteq> []"
    and "msg_value (last replies) = []"
    and "length d < PROP_VALUE_MAX L"
  shows "\<exists>w'. property_get L (Some k) (Some old) (Some d) w
                  = Some (Inr (int (length d), Some d, w')) \<and>
              opened w' = opened w"
proof -
  have last: "retval e \<noteq> SIZEOF_PROP_MSG L"
    using assms(7,9) by simp
  show ?thesis
    using send_prop_msg_exchange [OF assms(2-8) last,
        of "(zero_msg PROP_MSG_GETPROP)\<lparr>msg_name := strncpy (PROP_NAME_MAX L) k\<rparr>" False]
      assms(1,9-12)
    by (simp add: property_get_def property_get_socket_def property_get_socket_copy_def
      strncpy_value_def strncpy_def)
qed

theorem property_get_default_on_empty_reply_witness:
  "\<exists>w'. property_get L0 (Some ''ro.x'') (Some ''junk'') (Some ''dflt'')
             (live [(Ret 128, reply_unset), (Ret 0, reply_unset)])
           = Some (Inr (4, Some ''dflt'', w')) \<and>
        opened w' = []"
proof -
  let ?w = "live [(Ret 128, reply_unset), (Ret 0, reply_unset)]"
  have h: "length ''ro.x'' < PROP_NAME_MAX L0"
    "socket_rets ?w = Ret 3 # []" "(0::int) \<le> 3"
    "connect_rets ?w = Ret 0 # []" "0 \<le> retval (Ret 0)"
    "send_rets ?w = replicate 0 (Err EINTR) @ Ret (SIZEOF_PROP_MSG L0) # []"
    "0 < SIZEOF_PROP_MSG L0"
    "recv_rets ?w = map (\<lambda>m. (Ret (SIZEOF_PROP_MSG L0), m)) [reply_unset] @ (Ret 0, reply_unset) # []"
    "retval (Ret 0) = 0"
    "[reply_unset] \<noteq> []"
    "msg_value (last [reply_unset]) = []"
    "length ''dflt'' < PROP_VALUE_MAX L0"
    by (simp_all add: live_def world0_def L0_def reply_unset_def)
  from property_get_default_on_empty_reply [where old = "''junk''", OF h]
  show ?thesis by (simp add: live_def world0_def)
qed

text \<open>
  C8 (as the code has it). \<open>find_key_kernel_cmdline\<close> opens \<^verbatim>\<open>/proc/cmdline\<close>, takes
  at most 1023 bytes of it less one trailing newline, and splits them at spaces. A
  token is considered when it has a \<^verbatim>\<open>=\<close> and the name before its first \<^verbatim>\<open>=\<close> begins
  with \<^verbatim>\<open>androidboot.\<close>; its candidate key is \<^verbatim>\<open>ro.\<close> followed by the rest of the name,
  cut to \<open>PROP_NAME_MAX - 1\<close> bytes (the \<^verbatim>\<open>snprintf\<close> into \<^verbatim>\<open>prop[PROP_NAME_MAX]\<close>). The
  value of the first token whose candidate key equals the requested key is returned,
  NULL if there is none. With names of 32 bytes, \<^verbatim>\<open>androidboot.serialno=ABC123
  console=ttyS0\<close> gives \<^verbatim>\<open>ABC123\<close> for \<^verbatim>\<open>ro.serialno\<close> and NULL for \<^verbatim>\<open>ro.console\<close>.
\<close>

theorem find_key_kernel_cmdline_tokens:
  "find_key_kernel_cmdline L (Some key) w =
     Inr (cmdline_spec L (proc_cmdline w) key, w\<lparr>opened := opened w @ [''/proc/cmdline'']\<rparr>) \<and>
   cmdline_spec L0 (Read_ok ''androidboot.serialno=ABC123 console=ttyS0'') ''ro.serialno''
     = Some ''ABC123'' \<and>
   cmdline_spec L0 (Read_ok ''androidboot.serialno=ABC123 console=ttyS0'') ''ro.console'' = None"
proof -
  have "cmdline_spec L0 (Read_ok ''androidboot.serialno=ABC123 console=ttyS0'') ''ro.serialno''
          = Some ''ABC123''"
    by code_simp
  moreover
  have "cmdline_spec L0 (Read_ok ''androidboot.serialno=ABC123 console=ttyS0'') ''ro.console'' = None"
    by code_simp
  ultimately show ?thesis
    by (simp only: find_key_kernel_cmdline_eq simp_thms)
qed

text \<open>
  The claim as written takes \<^verbatim>\<open>ro.\<close> plus the rest of the name as the candidate key. With
  names of 32 bytes, the token \<^verbatim>\<open>androidboot.hardware.revision.major.minor.patch=v\<close>
  answers a request for the 31 bytes \<^verbatim>\<open>ro.hardware.revision.major.mino\<close>, a key that
  differs from \<^verbatim>\<open>ro.hardware.revision.major.minor.patch\<close>.
\<close>

theorem find_key_kernel_cmdline_tokens_counterexample:
  "map_sum id fst
     (find_key_kernel_cmdline L0 (Some ''ro.hardware.revision.major.mino'')
        (world0\<lparr>proc_cmdline := Read_ok ''androidboot.hardware.revision.major.minor.patch=v''\<rparr>))
     = Inr (Some ''v'') \<and>
   ''ro.'' @ ''hardware.revision.major.minor.patch'' \<noteq> ''ro.hardware.revision.major.mino''"
  by code_simp

text \<open>
  C9. A \<^verbatim>\<open>connect\<close> interrupted by a signal is not retried. The service is up and
  would answer \<^verbatim>\<open>live\<close>; the first \<^verbatim>\<open>connect\<close> fails with \<^verbatim>\<open>EINTR\<close>, a second would
  succeed. \<open>send_prop_msg\<close> returns \<open>-1\<close> with the second result of \<^verbatim>\<open>connect\<close> still
  unread, and \<open>property_get\<close> falls back to the static sources and returns the
  default. The macro is applied to the comparison \<^verbatim>\<open>connect(...) < 0\<close>, whose value is 0
  or 1 and never \<open>-1\<close>.
\<close>

theorem interrupted_connect_not_retried:
  "send_prop_msg L0 get_x False interrupted_connect =
     Some ((- 1, get_x),
           interrupted_connect\<lparr>errno := EINTR, socket_rets := [], connect_rets := [Ret 0],
                                closed := [3]\<rparr>) \<and>
   property_get L0 (Some ''ro.x'') (Some []) (Some ''dflt'') interrupted_connect =
     Some (Inr (4, Some ''dflt'',
           interrupted_connect\<lparr>errno := EINTR, socket_rets := [], connect_rets := [Ret 0],
                                closed := [3],
                                opened := [''/system/build.prop'', ''/proc/cmdline'']\<rparr>))"
  by (simp add: property_get_def property_get_socket_def send_prop_msg_def Let_def
      interrupted_connect_def world0_def L0_def get_x_def c_socket_def c_connect_def c_close_def
      TEMP_FAILURE_RETRY.simps zero_msg_def strncpy_def find_key_def strcpy_value_def
      find_key_kernel_cmdline_def read_cmdline_def cmdline_loop.simps)

text \<open>
  C10. With a NULL key and a default shorter than \<open>PROP_VALUE_MAX\<close>, \<open>property_get\<close>
  copies the default into the buffer and returns its length, and the world is
  untouched: no socket call is made, no exchange is attempted, no file is opened.
\<close>

theorem property_get_null_key_default:
  assumes "length d < PROP_VALUE_MAX L"
  shows "property_get L None (Some old) (Some d) w = Some (Inr (int (length d), Some d, w))"
  using assms
  by (simp add: property_get_def property_get_socket_def property_get_socket_copy_def
      strncpy_value_def zero_msg_def strncpy_def)

text \<open>In a world where any socket call would not return, the call returns.\<close>

theorem property_get_null_key_default_witness:
  "property_get L0 None (Some ''junk'') (Some ''dflt'') world0 = Some (Inr (4, Some ''dflt'', world0))"
proof -
  have "length ''dflt'' < PROP_VALUE_MAX L0"
    by (simp add: L0_def)
  from property_get_null_key_default [OF this, of "''junk''" world0]
  show ?thesis by simp
qed

end
